theory Spec2Isabelle
  imports Complex_Main
begin

section \<open>Data model (src/types/index.ts)\<close>

record User =
  email :: string
  firstName :: string
  lastName :: string
  phoneNumber :: string

record RegistrationFormData =
  email :: string
  password :: string
  confirmPassword :: string
  firstName :: string
  lastName :: string
  phoneNumber :: string

record LoginFormData =
  email :: string
  password :: string

text \<open>The object \<^verbatim>\<open>{email, password}\<close> that \<^verbatim>\<open>getCredentials\<close> returns.\<close>

record Credentials =
  email :: string
  password :: string

text \<open>
  \<^verbatim>\<open>Partial<RegistrationFormData>\<close> is a JavaScript object whose properties are all
  optional: a map from property names to string values. A property that is absent and a
  property that is \<^verbatim>\<open>undefined\<close> are both \<open>None\<close>; \<^verbatim>\<open>JSON.stringify\<close> drops
  the latter, and deep equality does not tell them apart.
\<close>

type_synonym PartialRegistrationFormData = "string \<rightharpoonup> string"

text \<open>An object literal: the listed properties, in order, the undefined ones left out.\<close>

definition object :: "(string \<times> string option) list \<Rightarrow> PartialRegistrationFormData" where
  "object props k = (case map_of props k of None \<Rightarrow> None | Some v \<Rightarrow> v)"

text \<open>
  The result object of \<^verbatim>\<open>register\<close> and \<^verbatim>\<open>login\<close>,
  \<^verbatim>\<open>{success, user?, error?, lockedOut?, remainingTime?}\<close>, and the one of
  \<^verbatim>\<open>checkAuth\<close>. An optional property that is not set is \<open>None\<close>.
\<close>

record AuthResult =
  success :: bool
  user :: "User option"
  error :: "string option"
  lockedOut :: "bool option"
  remainingTime :: "int option"

record AuthCheck =
  isAuthenticated :: bool
  user :: "User option"

section \<open>The two storage backends\<close>

text \<open>The keys of \<^verbatim>\<open>STORAGE_KEYS\<close> (storage.ts, lines 5-10).\<close>

datatype storage_key =
  PARTIAL_REGISTRATION | FAILED_LOGIN_ATTEMPTS | LOCKOUT_TIMESTAMP | USER_DATA

text \<open>
  The calls the service makes to the keychain and to AsyncStorage. Each returns a promise
  that the backend may reject; the \<^verbatim>\<open>await\<close> then throws inside the caller's
  \<^verbatim>\<open>try\<close> block.
\<close>

datatype backend_call =
    Keychain_setGenericPassword
  | Keychain_getGenericPassword
  | Keychain_resetGenericPassword
  | AsyncStorage_setItem storage_key
  | AsyncStorage_getItem storage_key
  | AsyncStorage_removeItem storage_key

text \<open>
  The device as the two services see it. The keychain holds one (username, password) pair
  under the service name \<^verbatim>\<open>VisaGeneralRegistration\<close>. AsyncStorage holds one string per
  key; each key is written by one function only, with \<^verbatim>\<open>JSON.stringify\<close> or
  \<^verbatim>\<open>toString\<close>, and read back with \<^verbatim>\<open>JSON.parse\<close> or \<^verbatim>\<open>parseInt\<close>, so a slot
  is modelled by the value that was serialised into it (the strings written are never
  empty, so a stored item is always truthy). Numbers are integers: counters and
  millisecond timestamps stay far below \<open>2^53\<close>, where doubles hold them exactly and
  \<^verbatim>\<open>Math.ceil\<close> of their quotient by 1000 or 60 is the exact ceiling.
  \<open>Date_now\<close> is the clock in milliseconds, constant during one call of a service
  function. \<open>rejects\<close> says which backend calls currently fail.
\<close>

record world =
  keychain :: "(string \<times> string) option"
  user_data :: "User option"
  partial_registration :: "PartialRegistrationFormData option"
  failed_login_attempts :: "int option"
  lockout_timestamp :: "int option"
  Date_now :: int
  rejects :: "backend_call \<Rightarrow> bool"

text \<open>Time passing between two calls.\<close>

definition advance :: "int \<Rightarrow> world \<Rightarrow> world" where
  "advance ms w = w\<lparr>Date_now := Date_now w + ms\<rparr>"

text \<open>A device on which nothing was stored yet and every backend call goes through.\<close>

definition fresh_install :: "int \<Rightarrow> world" where
  "fresh_install t =
     \<lparr>keychain = None, user_data = None, partial_registration = None,
      failed_login_attempts = None, lockout_timestamp = None,
      Date_now = t, rejects = (\<lambda>c. False)\<rparr>"

section \<open>JavaScript arithmetic and number formatting\<close>

text \<open>\<^verbatim>\<open>Math.ceil(a / b)\<close> on integers, for a positive divisor.\<close>

definition Math_ceil_div :: "int \<Rightarrow> int \<Rightarrow> int" where
  "Math_ceil_div a b = - ((- a) div b)"

text \<open>The decimal digits of a number, as a template literal prints it.\<close>

fun decimal :: "nat \<Rightarrow> string" where
  "decimal n =
     (if n < 10 then [''0123456789'' ! n]
      else decimal (n div 10) @ [''0123456789'' ! (n mod 10)])"

declare decimal.simps [simp del]

definition Number_toString :: "int \<Rightarrow> string" where
  "Number_toString i = (if i < 0 then ''-'' @ decimal (nat (- i)) else decimal (nat i))"

section \<open>StorageService (src/services/storage.ts)\<close>

definition LOCKOUT_DURATION :: int where
  "LOCKOUT_DURATION = 15 * 60 * 1000"

definition MAX_FAILED_ATTEMPTS :: int where
  "MAX_FAILED_ATTEMPTS = 5"

text \<open>
  Every function wraps its backend calls in \<^verbatim>\<open>try\<close>/\<^verbatim>\<open>catch\<close>: a rejected call
  leaves the store as the calls before it made it and returns the soft failure value.
\<close>

definition storeCredentials :: "string \<Rightarrow> string \<Rightarrow> world \<Rightarrow> bool \<times> world" where
  "storeCredentials em pw w =
     (if rejects w Keychain_setGenericPassword then (False, w)
      else (True, w\<lparr>keychain := Some (em, pw)\<rparr>))"

definition getCredentials :: "world \<Rightarrow> Credentials option" where
  "getCredentials w =
     (if rejects w Keychain_getGenericPassword then None
      else case keychain w of
             Some (username, pw) \<Rightarrow> Some \<lparr>Credentials.email = username, password = pw\<rparr>
           | None \<Rightarrow> None)"

definition clearCredentials :: "world \<Rightarrow> bool \<times> world" where
  "clearCredentials w =
     (if rejects w Keychain_resetGenericPassword then (False, w)
      else (True, w\<lparr>keychain := None\<rparr>))"

definition storeUserData :: "User \<Rightarrow> world \<Rightarrow> bool \<times> world" where
  "storeUserData u w =
     (if rejects w (AsyncStorage_setItem USER_DATA) then (False, w)
      else (True, w\<lparr>user_data := Some u\<rparr>))"

definition getUserData :: "world \<Rightarrow> User option" where
  "getUserData w =
     (if rejects w (AsyncStorage_getItem USER_DATA) then None
      else case user_data w of Some u \<Rightarrow> Some u | None \<Rightarrow> None)"

definition clearUserData :: "world \<Rightarrow> bool \<times> world" where
  "clearUserData w =
     (if rejects w (AsyncStorage_removeItem USER_DATA) then (False, w)
      else (True, w\<lparr>user_data := None\<rparr>))"

definition storePartialRegistration ::
  "PartialRegistrationFormData \<Rightarrow> world \<Rightarrow> bool \<times> world" where
  "storePartialRegistration d w =
     (if rejects w (AsyncStorage_setItem PARTIAL_REGISTRATION) then (False, w)
      else (True, w\<lparr>partial_registration := Some d\<rparr>))"

definition getPartialRegistration :: "world \<Rightarrow> PartialRegistrationFormData option" where
  "getPartialRegistration w =
     (if rejects w (AsyncStorage_getItem PARTIAL_REGISTRATION) then None
      else case partial_registration w of Some d \<Rightarrow> Some d | None \<Rightarrow> None)"

definition clearPartialRegistration :: "world \<Rightarrow> bool \<times> world" where
  "clearPartialRegistration w =
     (if rejects w (AsyncStorage_removeItem PARTIAL_REGISTRATION) then (False, w)
      else (True, w\<lparr>partial_registration := None\<rparr>))"

definition getFailedAttempts :: "world \<Rightarrow> int" where
  "getFailedAttempts w =
     (if rejects w (AsyncStorage_getItem FAILED_LOGIN_ATTEMPTS) then 0
      else case failed_login_attempts w of Some attempts \<Rightarrow> attempts | None \<Rightarrow> 0)"

definition incrementFailedAttempts :: "world \<Rightarrow> int \<times> world" where
  "incrementFailedAttempts w =
     (let attempts = getFailedAttempts w;
          newAttempts = attempts + 1
      in if rejects w (AsyncStorage_setItem FAILED_LOGIN_ATTEMPTS) then (0, w)
         else let w1 = w\<lparr>failed_login_attempts := Some newAttempts\<rparr>
              in if newAttempts \<ge> MAX_FAILED_ATTEMPTS
                 then (if rejects w1 (AsyncStorage_setItem LOCKOUT_TIMESTAMP) then (0, w1)
                       else (newAttempts, w1\<lparr>lockout_timestamp := Some (Date_now w1)\<rparr>))
                 else (newAttempts, w1))"

definition resetFailedAttempts :: "world \<Rightarrow> bool \<times> world" where
  "resetFailedAttempts w =
     (if rejects w (AsyncStorage_removeItem FAILED_LOGIN_ATTEMPTS) then (False, w)
      else let w1 = w\<lparr>failed_login_attempts := None\<rparr>
           in if rejects w1 (AsyncStorage_removeItem LOCKOUT_TIMESTAMP) then (False, w1)
              else (True, w1\<lparr>lockout_timestamp := None\<rparr>))"

definition isLockedOut :: "world \<Rightarrow> bool \<times> world" where
  "isLockedOut w =
     (if rejects w (AsyncStorage_getItem LOCKOUT_TIMESTAMP) then (False, w)
      else case lockout_timestamp w of
             None \<Rightarrow> (False, w)
           | Some lockoutTime \<Rightarrow>
               (let now = Date_now w;
                    timeSinceLockout = now - lockoutTime
                in if timeSinceLockout \<ge> LOCKOUT_DURATION
                   then (False, snd (resetFailedAttempts w))
                   else (True, w)))"

definition getRemainingLockoutTime :: "world \<Rightarrow> int" where
  "getRemainingLockoutTime w =
     (if rejects w (AsyncStorage_getItem LOCKOUT_TIMESTAMP) then 0
      else case lockout_timestamp w of
             None \<Rightarrow> 0
           | Some lockoutTime \<Rightarrow>
               (let now = Date_now w;
                    timeSinceLockout = now - lockoutTime;
                    remaining = LOCKOUT_DURATION - timeSinceLockout
                in if remaining > 0 then Math_ceil_div remaining 1000 else 0))"

definition hasSession :: "world \<Rightarrow> bool" where
  "hasSession w =
     (let credentials = getCredentials w;
          userData = getUserData w
      in credentials \<noteq> None \<and> userData \<noteq> None)"

definition clearAll :: "world \<Rightarrow> bool \<times> world" where
  "clearAll w =
     (let w1 = snd (clearCredentials w);
          w2 = snd (clearUserData w1);
          w3 = snd (clearPartialRegistration w2);
          w4 = snd (resetFailedAttempts w3)
      in (True, w4))"

text \<open>
  The class \<^verbatim>\<open>StorageService\<close> (storage.ts, lines 18-303) ends with \<^verbatim>\<open>clearAll\<close>. It
  declares no member \<^verbatim>\<open>setSessionActive\<close> and no member \<^verbatim>\<open>clearSession\<close>, and no
  other file of the repository adds one. The expressions
  \<^verbatim>\<open>StorageService.setSessionActive(true)\<close> (auth.ts, lines 58 and 139) and
  \<^verbatim>\<open>StorageService.clearSession()\<close> (auth.ts, line 170) therefore apply
  \<^verbatim>\<open>undefined\<close>: the call throws a \<^verbatim>\<open>TypeError\<close> and changes nothing, and the
  \<^verbatim>\<open>catch\<close> block of the function that made it takes over.
\<close>

datatype js_error = TypeError

definition setSessionActive :: "bool \<Rightarrow> world \<Rightarrow> js_error + world" where
  "setSessionActive active w = Inl TypeError"

definition clearSession :: "world \<Rightarrow> js_error + bool \<times> world" where
  "clearSession w = Inl TypeError"

section \<open>AuthService (src/services/auth.ts)\<close>

definition failure :: "string \<Rightarrow> AuthResult" where
  "failure msg =
     \<lparr>success = False, AuthResult.user = None, error = Some msg,
      lockedOut = None, remainingTime = None\<rparr>"

definition locked :: "int \<Rightarrow> string \<Rightarrow> AuthResult" where
  "locked remaining msg =
     \<lparr>success = False, AuthResult.user = None, error = Some msg,
      lockedOut = Some True, remainingTime = Some remaining\<rparr>"

definition succeeded :: "User \<Rightarrow> AuthResult" where
  "succeeded u =
     \<lparr>success = True, AuthResult.user = Some u, error = None,
      lockedOut = None, remainingTime = None\<rparr>"

definition register :: "RegistrationFormData \<Rightarrow> world \<Rightarrow> AuthResult \<times> world" where
  "register data w =
     (let existingCredentials = getCredentials w
      in if map_option Credentials.email existingCredentials
              = Some (RegistrationFormData.email data)
         then (failure ''An account with this email already exists'', w)
         else
           let u = \<lparr>User.email = RegistrationFormData.email data,
                    firstName = RegistrationFormData.firstName data,
                    lastName = RegistrationFormData.lastName data,
                    phoneNumber = RegistrationFormData.phoneNumber data\<rparr>;
               (credentialsStored, w1) =
                 storeCredentials (RegistrationFormData.email data)
                   (RegistrationFormData.password data) w
           in if \<not> credentialsStored then (failure ''Failed to store credentials'', w1)
              else
                let (userDataStored, w2) = storeUserData u w1
                in if \<not> userDataStored
                   then (let w3 = snd (clearCredentials w2)
                         in (failure ''Failed to store user data'', w3))
                   else
                     case setSessionActive True w2 of
                       Inl e \<Rightarrow>
                         (failure ''An unexpected error occurred during registration'', w2)
                     | Inr w3 \<Rightarrow>
                         (let w4 = snd (clearPartialRegistration w3)
                          in (succeeded u, w4)))"

definition login :: "LoginFormData \<Rightarrow> world \<Rightarrow> AuthResult \<times> world" where
  "login data w =
     (let (isLockedOut', w1) = isLockedOut w
      in if isLockedOut'
         then (let remaining = getRemainingLockoutTime w1
               in (locked remaining
                     (''Account locked. Please try again in ''
                        @ Number_toString (Math_ceil_div remaining 60) @ '' minutes.''), w1))
         else
           case getCredentials w1 of
             None \<Rightarrow>
               (let (attempts, w2) = incrementFailedAttempts w1
                in (failure ''Invalid email or password'', w2))
           | Some credentials \<Rightarrow>
               if Credentials.email credentials \<noteq> LoginFormData.email data
                  \<or> Credentials.password credentials \<noteq> LoginFormData.password data
               then
                 (let (attempts, w2) = incrementFailedAttempts w1;
                      (isNowLockedOut, w3) = isLockedOut w2
                  in if isNowLockedOut
                     then (let remaining = getRemainingLockoutTime w3
                           in (locked remaining
                                 (''Too many failed attempts. Account locked for ''
                                    @ Number_toString (Math_ceil_div remaining 60)
                                    @ '' minutes.''), w3))
                     else (failure ''Invalid email or password'', w3))
               else
                 (let w2 = snd (resetFailedAttempts w1)
                  in case setSessionActive True w2 of
                       Inl e \<Rightarrow> (failure ''An unexpected error occurred during login'', w2)
                     | Inr w3 \<Rightarrow>
                         (case getUserData w3 of
                            None \<Rightarrow> (failure ''User data not found'', w3)
                          | Some u \<Rightarrow> (succeeded u, w3))))"

definition logout :: "world \<Rightarrow> bool \<times> world" where
  "logout w = (case clearSession w of Inl e \<Rightarrow> (False, w) | Inr r \<Rightarrow> r)"

definition checkAuth :: "world \<Rightarrow> AuthCheck" where
  "checkAuth w =
     (let hasSession' = hasSession w
      in if \<not> hasSession' then \<lparr>isAuthenticated = False, AuthCheck.user = None\<rparr>
         else let u = getUserData w
              in \<lparr>isAuthenticated = True, AuthCheck.user = u\<rparr>)"

section \<open>RegistrationScreen: saving the draft (src/screens/RegistrationScreen.tsx)\<close>

text \<open>
  The \<^verbatim>\<open>watch\<close> subscription (lines 61-73) copies four properties of the form values
  and stores that object; the comment there reads "Don't save passwords".
\<close>

definition watch_subscription ::
  "PartialRegistrationFormData \<Rightarrow> world \<Rightarrow> bool \<times> world" where
  "watch_subscription data w =
     (let partialData =
            object [(''email'', data ''email''), (''firstName'', data ''firstName''),
                    (''lastName'', data ''lastName''), (''phoneNumber'', data ''phoneNumber'')]
      in storePartialRegistration partialData w)"

section \<open>Scenarios\<close>

text \<open>
  A run of login attempts, each after some milliseconds have passed since the call
  before it.
\<close>

fun login_attempts :: "(int \<times> LoginFormData) list \<Rightarrow> world \<Rightarrow> world" where
  "login_attempts [] w = w"
| "login_attempts ((ms, data) # rest) w = login_attempts rest (snd (login data (advance ms w)))"

text \<open>The submitted pair is not the stored one (or nothing is stored).\<close>

definition mismatched :: "world \<Rightarrow> LoginFormData \<Rightarrow> bool" where
  "mismatched w data =
     (case getCredentials w of
        None \<Rightarrow> True
      | Some credentials \<Rightarrow>
          Credentials.email credentials \<noteq> LoginFormData.email data
          \<or> Credentials.password credentials \<noteq> LoginFormData.password data)"

section \<open>Concrete devices and inputs\<close>

text \<open>The registration of the spec's scenario, and a second user.\<close>

definition john :: User where
  "john = \<lparr>User.email = ''a@b.com'', firstName = ''John'', lastName = ''Doe'',
            phoneNumber = ''1234567890''\<rparr>"

definition john_registration :: RegistrationFormData where
  "john_registration =
     \<lparr>RegistrationFormData.email = ''a@b.com'', password = ''Passw0rd'',
      confirmPassword = ''Passw0rd'', firstName = ''John'', lastName = ''Doe'',
      phoneNumber = ''1234567890''\<rparr>"

definition jane_registration :: RegistrationFormData where
  "jane_registration =
     \<lparr>RegistrationFormData.email = ''c@d.com'', password = ''Secret123'',
      confirmPassword = ''Secret123'', firstName = ''Jane'', lastName = ''Roe'',
      phoneNumber = ''0987654321''\<rparr>"

definition john_draft :: PartialRegistrationFormData where
  "john_draft = object [(''email'', Some ''a@b.com''), (''firstName'', Some ''John'')]"

definition draft_with_password :: PartialRegistrationFormData where
  "draft_with_password =
     object [(''email'', Some ''a@b.com''), (''password'', Some ''Passw0rd''),
             (''confirmPassword'', Some ''Passw0rd'')]"

text \<open>A device that holds a half-filled form and nothing else.\<close>

definition device_with_draft :: world where
  "device_with_draft = (fresh_install 0)\<lparr>partial_registration := Some john_draft\<rparr>"

text \<open>The same device when AsyncStorage refuses to write the profile.\<close>

definition profile_write_fails :: world where
  "profile_write_fails =
     device_with_draft\<lparr>rejects := (\<lambda>c. c = AsyncStorage_setItem USER_DATA)\<rparr>"

text \<open>A device on which John's credential and profile are stored.\<close>

definition registered_device :: world where
  "registered_device =
     (fresh_install 0)\<lparr>keychain := Some (''a@b.com'', ''Passw0rd''), user_data := Some john\<rparr>"

text \<open>
  A device locked one minute ago: the credential of the spec's scenario is stored, five
  attempts have failed, and the lockout was stamped at time 0.
\<close>

definition locked_device :: world where
  "locked_device =
     (fresh_install 60000)
       \<lparr>keychain := Some (''a@b.com'', ''Passw0rd''),
        failed_login_attempts := Some 5, lockout_timestamp := Some 0\<rparr>"

text \<open>The locked device when one AsyncStorage read is rejected.\<close>

definition count_read_fails :: world where
  "count_read_fails =
     locked_device\<lparr>rejects := (\<lambda>c. c = AsyncStorage_getItem FAILED_LOGIN_ATTEMPTS)\<rparr>"

definition timestamp_read_fails :: world where
  "timestamp_read_fails =
     locked_device\<lparr>rejects := (\<lambda>c. c = AsyncStorage_getItem LOCKOUT_TIMESTAMP)\<rparr>"

text \<open>Five attempts with a wrong password, one second apart.\<close>

definition five_wrong_passwords :: "(int \<times> LoginFormData) list" where
  "five_wrong_passwords =
     replicate 5 (1000, \<lparr>LoginFormData.email = ''a@b.com'', password = ''wrong''\<rparr>)"

text \<open>One more attempt a minute later, this time with the right password.\<close>

definition right_password_later :: "(int \<times> LoginFormData) list" where
  "right_password_later =
     [(60000, \<lparr>LoginFormData.email = ''a@b.com'', password = ''Passw0rd''\<rparr>)]"

section \<open>Arithmetic of the countdown\<close>

lemma Math_ceil_div_ceiling:
  "Math_ceil_div a b = \<lceil>real_of_int a / real_of_int b\<rceil>"
  by (simp add: Math_ceil_div_def ceiling_divide_eq_div)

lemma Math_ceil_div_pos: "0 < a \<Longrightarrow> 0 < b \<Longrightarrow> 0 < Math_ceil_div a b"
  by (simp add: Math_ceil_div_def pos_imp_zdiv_neg_iff)

lemma Math_ceil_div_mono: "a \<le> a' \<Longrightarrow> 0 < b \<Longrightarrow> Math_ceil_div a b \<le> Math_ceil_div a' b"
  by (simp add: Math_ceil_div_def zdiv_mono1)

section \<open>The lockout check\<close>

lemma isLockedOut_state: "fst (isLockedOut w) \<Longrightarrow> snd (isLockedOut w) = w"
  by (auto simp: isLockedOut_def Let_def split: option.splits if_splits)

lemma getRemainingLockoutTime_advance:
  assumes "0 \<le> ms"
  shows "getRemainingLockoutTime (advance ms w) \<le> getRemainingLockoutTime w"
proof (cases "rejects w (AsyncStorage_getItem LOCKOUT_TIMESTAMP)")
  case True
  then show ?thesis by (simp add: getRemainingLockoutTime_def advance_def)
next
  case False
  show ?thesis
  proof (cases "lockout_timestamp w")
    case None
    with False show ?thesis by (simp add: getRemainingLockoutTime_def advance_def)
  next
    case (Some t)
    have m: "Math_ceil_div (LOCKOUT_DURATION - (Date_now w + ms - t)) 1000
               \<le> Math_ceil_div (LOCKOUT_DURATION - (Date_now w - t)) 1000"
      using assms by (intro Math_ceil_div_mono) simp_all
    have p: "0 < LOCKOUT_DURATION - (Date_now w - t) \<Longrightarrow>
             0 < Math_ceil_div (LOCKOUT_DURATION - (Date_now w - t)) 1000"
      by (rule Math_ceil_div_pos) simp_all
    show ?thesis
      using False Some assms m p
      by (auto simp: getRemainingLockoutTime_def advance_def Let_def)
  qed
qed

lemma getRemainingLockoutTime_zero_iff:
  "(getRemainingLockoutTime w = 0) = (\<not> fst (isLockedOut w))"
proof -
  have "0 < a \<Longrightarrow> Math_ceil_div a 1000 \<noteq> 0" for a
    using Math_ceil_div_pos [of a 1000] by simp
  then show ?thesis
    by (auto simp: getRemainingLockoutTime_def isLockedOut_def Let_def split: option.splits)
qed

lemma incrementFailedAttempts_rejects:
  "rejects (snd (incrementFailedAttempts w)) = rejects w"
  by (simp add: incrementFailedAttempts_def Let_def)

lemma getFailedAttempts_advance: "getFailedAttempts (advance ms w) = getFailedAttempts w"
  by (simp add: getFailedAttempts_def advance_def)

section \<open>Failed logins, one after the other\<close>

lemma mismatched_cong:
  "keychain w' = keychain w \<Longrightarrow> rejects w' = rejects w \<Longrightarrow> mismatched w' d = mismatched w d"
  by (simp add: mismatched_def getCredentials_def)

text \<open>
  One failed login on a device that is not locked and whose backends work: the counter
  goes up by one, and the attempt that brings it to five stamps the lockout.
\<close>

lemma failed_login_state:
  assumes "\<forall>c. \<not> rejects w c" and "lockout_timestamp w = None" and "mismatched w data"
  shows "snd (login data w) =
           (if getFailedAttempts w + 1 \<ge> 5
            then w\<lparr>failed_login_attempts := Some (getFailedAttempts w + 1),
                   lockout_timestamp := Some (Date_now w)\<rparr>
            else w\<lparr>failed_login_attempts := Some (getFailedAttempts w + 1)\<rparr>)"
proof -
  have l: "isLockedOut w = (False, w)"
    using assms by (simp add: isLockedOut_def)
  show ?thesis
  proof (cases "getFailedAttempts w + 1 \<ge> 5")
    case True
    let ?w2 = "w\<lparr>failed_login_attempts := Some (getFailedAttempts w + 1),
                   lockout_timestamp := Some (Date_now w)\<rparr>"
    have i: "incrementFailedAttempts w = (getFailedAttempts w + 1, ?w2)"
      using assms True by (simp add: incrementFailedAttempts_def MAX_FAILED_ATTEMPTS_def Let_def)
    have n: "isLockedOut ?w2 = (True, ?w2)"
      using assms by (simp add: isLockedOut_def LOCKOUT_DURATION_def)
    show ?thesis
      using assms(3) True
      by (auto simp: login_def l i n mismatched_def Let_def split: option.splits)
  next
    case False
    let ?w2 = "w\<lparr>failed_login_attempts := Some (getFailedAttempts w + 1)\<rparr>"
    have i: "incrementFailedAttempts w = (getFailedAttempts w + 1, ?w2)"
      using assms False by (simp add: incrementFailedAttempts_def MAX_FAILED_ATTEMPTS_def Let_def)
    have n: "isLockedOut ?w2 = (False, ?w2)"
      using assms by (simp add: isLockedOut_def)
    show ?thesis
      using assms(3) False
      by (auto simp: login_def l i n mismatched_def Let_def split: option.splits)
  qed
qed

lemma login_attempts_append:
  "login_attempts (xs @ ys) w = login_attempts ys (login_attempts xs w)"
  by (induction xs arbitrary: w) auto

lemma login_attempts_below_threshold:
  assumes "\<forall>c. \<not> rejects w c" and "lockout_timestamp w = None"
    and "\<forall>a\<in>set attempts. mismatched w (snd a)"
    and "getFailedAttempts w + int (length attempts) < 5"
  shows "rejects (login_attempts attempts w) = rejects w
         \<and> keychain (login_attempts attempts w) = keychain w
         \<and> lockout_timestamp (login_attempts attempts w) = None
         \<and> getFailedAttempts (login_attempts attempts w)
             = getFailedAttempts w + int (length attempts)"
  using assms
proof (induction attempts arbitrary: w)
  case Nil
  then show ?case by simp
next
  case (Cons a rest)
  obtain ms d where a: "a = (ms, d)" by (cases a)
  let ?v = "advance ms w"
  let ?w' = "?v\<lparr>failed_login_attempts := Some (getFailedAttempts w + 1)\<rparr>"
  have v: "\<forall>c. \<not> rejects ?v c" "lockout_timestamp ?v = None" "mismatched ?v d"
    using Cons.prems a mismatched_cong [of ?v w d] by (simp_all add: advance_def)
  have f: "getFailedAttempts ?v = getFailedAttempts w"
    by (rule getFailedAttempts_advance)
  have s: "snd (login d ?v) = ?w'"
    using failed_login_state [OF v(1) v(2) v(3)] Cons.prems(4) f by simp
  have w': "\<forall>c. \<not> rejects ?w' c" "lockout_timestamp ?w' = None"
    "getFailedAttempts ?w' = getFailedAttempts w + 1"
    "rejects ?w' = rejects w" "keychain ?w' = keychain w"
    using Cons.prems(1,2) by (simp_all add: advance_def getFailedAttempts_def)
  have m: "\<forall>a\<in>set rest. mismatched ?w' (snd a)"
    using Cons.prems(3) mismatched_cong [OF w'(5) w'(4)] by simp
  have b: "getFailedAttempts ?w' + int (length rest) < 5"
    using Cons.prems(4) w'(3) by simp
  have "login_attempts (a # rest) w = login_attempts rest ?w'"
    by (simp add: a s)
  then show ?case
    using Cons.IH [OF w'(1) w'(2) m b] w'(3,4,5) by simp
qed

lemma five_failed_logins_state:
  assumes ok: "\<forall>c. \<not> rejects w c" and "lockout_timestamp w = None"
    and "getFailedAttempts w = 0"
    and "\<forall>a\<in>set attempts. mismatched w (snd a)"
    and "length attempts = 5"
  shows "\<exists>v. login_attempts attempts w
               = v\<lparr>failed_login_attempts := Some 5, lockout_timestamp := Some (Date_now v)\<rparr>
             \<and> rejects v = rejects w"
proof -
  obtain xs a where x: "attempts = xs @ [a]"
    using assms(5) by (cases attempts rule: rev_cases) auto
  obtain ms5 d where a: "a = (ms5, d)" by (cases a)
  let ?w4 = "login_attempts xs w"
  have l: "length xs = 4" using assms(5) x by simp
  have i: "rejects ?w4 = rejects w \<and> keychain ?w4 = keychain w
           \<and> lockout_timestamp ?w4 = None
           \<and> getFailedAttempts ?w4 = getFailedAttempts w + int (length xs)"
    using assms x l by (intro login_attempts_below_threshold) simp_all
  let ?v = "advance ms5 ?w4"
  have m: "mismatched ?v d"
    using i assms(4) x a mismatched_cong [of ?v w d] by (simp add: advance_def)
  have v: "\<forall>c. \<not> rejects ?v c" "lockout_timestamp ?v = None"
    using i ok by (simp_all add: advance_def)
  have f: "getFailedAttempts ?v = 4"
    using i assms(3) l by (simp add: getFailedAttempts_advance)
  let ?w5 = "?v\<lparr>failed_login_attempts := Some 5, lockout_timestamp := Some (Date_now ?v)\<rparr>"
  have s: "snd (login d ?v) = ?w5"
    using failed_login_state [OF v(1) v(2) m] f by simp
  have "login_attempts attempts w = ?w5"
    by (simp add: x a login_attempts_append s)
  moreover have "rejects ?v = rejects w"
    using i by (simp add: advance_def)
  ultimately show ?thesis by blast
qed

text \<open>
  Login attempts made while the lockout lasts return at the first check: all they leave
  behind is the time that has passed.
\<close>

lemma advance_advance: "advance b (advance a w) = advance (a + b) w"
  by (simp add: advance_def)

lemma advance_zero: "advance 0 w = w"
  by (simp add: advance_def)

lemma login_attempts_while_locked:
  assumes "\<not> rejects w (AsyncStorage_getItem LOCKOUT_TIMESTAMP)"
    and "lockout_timestamp w = Some t"
    and "\<forall>a\<in>set later. 0 \<le> fst a"
    and "Date_now w + sum_list (map fst later) - t < LOCKOUT_DURATION"
  shows "login_attempts later w = advance (sum_list (map fst later)) w"
  using assms
proof (induction later arbitrary: w)
  case Nil
  then show ?case by (simp add: advance_zero)
next
  case (Cons a rest)
  obtain ms d where a: "a = (ms, d)" by (cases a)
  let ?v = "advance ms w"
  have nn: "0 \<le> sum_list (map fst rest)"
    using Cons.prems(3) by (intro sum_list_nonneg) auto
  have "Date_now ?v - t < LOCKOUT_DURATION"
    using Cons.prems(4) nn a by (simp add: advance_def)
  then have l: "fst (isLockedOut ?v)"
    using Cons.prems(1,2) by (simp add: isLockedOut_def advance_def Let_def)
  have s: "snd (login d ?v) = ?v"
    using l isLockedOut_state [OF l]
    by (cases "isLockedOut ?v") (simp add: login_def Let_def)
  have v: "\<not> rejects ?v (AsyncStorage_getItem LOCKOUT_TIMESTAMP)" "lockout_timestamp ?v = Some t"
    "\<forall>a\<in>set rest. 0 \<le> fst a"
    "Date_now ?v + sum_list (map fst rest) - t < LOCKOUT_DURATION"
    using Cons.prems a by (simp_all add: advance_def)
  have "login_attempts (a # rest) w = login_attempts rest ?v"
    by (simp add: a s)
  also have "\<dots> = advance (sum_list (map fst rest)) ?v"
    by (rule Cons.IH [OF v])
  finally show ?case
    by (simp add: a advance_advance)
qed

lemma locked_after_five_and_more:
  assumes ok: "\<forall>c. \<not> rejects w c" and "lockout_timestamp w = None"
    and "getFailedAttempts w = 0"
    and "\<forall>a\<in>set attempts. mismatched w (snd a)"
    and "length attempts = 5"
    and "\<forall>a\<in>set later. 0 \<le> fst a"
    and "sum_list (map fst later) < 15 * 60 * 1000"
  shows "fst (isLockedOut (advance ms (login_attempts (attempts @ later) w)))
           = (sum_list (map fst later) + ms < 15 * 60 * 1000)"
proof -
  obtain v where w5: "login_attempts attempts w
               = v\<lparr>failed_login_attempts := Some 5, lockout_timestamp := Some (Date_now v)\<rparr>"
    and r: "rejects v = rejects w"
    using five_failed_logins_state [OF assms(1-5)] by blast
  let ?w5 = "v\<lparr>failed_login_attempts := Some 5, lockout_timestamp := Some (Date_now v)\<rparr>"
  have a: "\<not> rejects ?w5 (AsyncStorage_getItem LOCKOUT_TIMESTAMP)"
    and b: "lockout_timestamp ?w5 = Some (Date_now v)"
    and c: "Date_now ?w5 + sum_list (map fst later) - Date_now v < LOCKOUT_DURATION"
    using ok r assms(7) by (simp_all add: LOCKOUT_DURATION_def)
  have "login_attempts (attempts @ later) w = advance (sum_list (map fst later)) ?w5"
    using login_attempts_while_locked [OF a b assms(6) c]
    by (simp add: login_attempts_append w5)
  then show ?thesis
    using ok r
    by (auto simp: isLockedOut_def advance_def LOCKOUT_DURATION_def Let_def)
qed

section \<open>The session calls that StorageService does not define\<close>

text \<open>
  Neither \<open>register\<close> nor \<open>login\<close> ever reports success, and \<open>logout\<close> changes
  nothing: each runs into the missing member and lands in its \<^verbatim>\<open>catch\<close> block.
  Whatever \<open>logout\<close> did, \<open>hasSession\<close> reads the session off the stored credential
  and profile alone.
\<close>

lemma register_never_succeeds: "\<not> success (fst (register data w))"
  by (simp add: register_def setSessionActive_def failure_def Let_def split: prod.splits)

lemma login_never_succeeds: "\<not> success (fst (login data w))"
  by (simp add: login_def setSessionActive_def failure_def locked_def Let_def
      split: prod.splits option.splits)

lemma logout_changes_nothing: "logout w = (False, w)"
  by (simp add: logout_def clearSession_def)

lemma hasSession_from_data:
  "getCredentials w \<noteq> None \<Longrightarrow> getUserData w \<noteq> None \<Longrightarrow>
     hasSession w \<and> isAuthenticated (checkAuth w)"
  by (simp add: hasSession_def checkAuth_def Let_def)

section \<open>Claims\<close>

text \<open>
  C1. The claim: a registration whose email is not the stored credential's, and for which
  \<open>storeCredentials\<close> and \<open>storeUserData\<close> both succeed, returns success with the
  profile, marks the session active and clears the draft. The code does not: once both
  writes are done it calls \<^verbatim>\<open>StorageService.setSessionActive\<close>, which does not exist, and
  the \<^verbatim>\<open>catch\<close> block returns the unexpected-error result. The credential and the
  profile stay stored and the draft is not cleared.
\<close>

theorem register_fresh_email_unexpected_error:
  assumes "map_option Credentials.email (getCredentials w)
             \<noteq> Some (RegistrationFormData.email data)"
    and "fst (storeCredentials (RegistrationFormData.email data)
                (RegistrationFormData.password data) w)"
    and "fst (storeUserData
                \<lparr>User.email = RegistrationFormData.email data,
                 firstName = RegistrationFormData.firstName data,
                 lastName = RegistrationFormData.lastName data,
                 phoneNumber = RegistrationFormData.phoneNumber data\<rparr>
                (snd (storeCredentials (RegistrationFormData.email data)
                        (RegistrationFormData.password data) w)))"
  shows "register data w =
           (\<lparr>success = False, AuthResult.user = None,
             error = Some ''An unexpected error occurred during registration'',
             lockedOut = None, remainingTime = None\<rparr>,
            w\<lparr>keychain := Some (RegistrationFormData.email data,
                                 RegistrationFormData.password data),
              user_data := Some \<lparr>User.email = RegistrationFormData.email data,
                                  firstName = RegistrationFormData.firstName data,
                                  lastName = RegistrationFormData.lastName data,
                                  phoneNumber = RegistrationFormData.phoneNumber data\<rparr>\<rparr>)
         \<and> partial_registration (snd (register data w)) = partial_registration w"
proof -
  have k: "\<not> rejects w Keychain_setGenericPassword"
    using assms(2) by (auto simp: storeCredentials_def split: if_splits)
  have u: "\<not> rejects w (AsyncStorage_setItem USER_DATA)"
    using assms(3) k by (auto simp: storeCredentials_def storeUserData_def split: if_splits)
  show ?thesis
    using assms(1) k u
    by (auto simp: register_def setSessionActive_def storeCredentials_def storeUserData_def
        failure_def Let_def)
qed

theorem register_fresh_email_unexpected_error_witness:
  "getCredentials device_with_draft = None
   \<and> fst (storeCredentials ''a@b.com'' ''Passw0rd'' device_with_draft)
   \<and> fst (storeUserData john (snd (storeCredentials ''a@b.com'' ''Passw0rd'' device_with_draft)))
   \<and> register john_registration device_with_draft =
       (\<lparr>success = False, AuthResult.user = None,
         error = Some ''An unexpected error occurred during registration'',
         lockedOut = None, remainingTime = None\<rparr>,
        device_with_draft\<lparr>keychain := Some (''a@b.com'', ''Passw0rd''), user_data := Some john\<rparr>)
   \<and> partial_registration (snd (register john_registration device_with_draft))
       = Some john_draft"
proof -
  have a: "map_option Credentials.email (getCredentials device_with_draft)
             \<noteq> Some (RegistrationFormData.email john_registration)"
    and g: "getCredentials device_with_draft = None"
    by (simp_all add: getCredentials_def device_with_draft_def fresh_install_def)
  have b: "fst (storeCredentials (RegistrationFormData.email john_registration)
                  (RegistrationFormData.password john_registration) device_with_draft)"
    by (simp add: storeCredentials_def device_with_draft_def fresh_install_def)
  have c: "fst (storeUserData
                \<lparr>User.email = RegistrationFormData.email john_registration,
                 firstName = RegistrationFormData.firstName john_registration,
                 lastName = RegistrationFormData.lastName john_registration,
                 phoneNumber = RegistrationFormData.phoneNumber john_registration\<rparr>
                (snd (storeCredentials (RegistrationFormData.email john_registration)
                        (RegistrationFormData.password john_registration) device_with_draft)))"
    by (simp add: storeCredentials_def storeUserData_def device_with_draft_def
        fresh_install_def)
  have d: "partial_registration device_with_draft = Some john_draft"
    by (simp add: device_with_draft_def fresh_install_def)
  show ?thesis
    using register_fresh_email_unexpected_error [OF a b c] b c g
    by (simp add: d john_registration_def john_def)
qed

text \<open>
  C2. The claim: after \<open>logout\<close> the credential and the profile are still stored, while
  \<open>hasSession\<close> and \<open>checkAuth\<close> report unauthenticated. The first half holds and the
  second does not: \<open>logout\<close> calls \<^verbatim>\<open>StorageService.clearSession\<close>, which does not exist,
  returns false from its \<^verbatim>\<open>catch\<close> block and leaves the store as it was; \<open>hasSession\<close>
  is true whenever a credential and a profile are stored, so \<open>checkAuth\<close> still reports
  the user as authenticated.
\<close>

theorem logout_keeps_session:
  assumes "getCredentials w = Some c" and "getUserData w = Some u"
  shows "logout w = (False, w)
         \<and> getCredentials (snd (logout w)) = Some c
         \<and> getUserData (snd (logout w)) = Some u
         \<and> hasSession (snd (logout w))
         \<and> checkAuth (snd (logout w)) = \<lparr>isAuthenticated = True, AuthCheck.user = Some u\<rparr>"
  using assms
  by (simp add: logout_def clearSession_def hasSession_def checkAuth_def Let_def)

theorem logout_keeps_session_witness:
  "getCredentials registered_device
     = Some \<lparr>Credentials.email = ''a@b.com'', password = ''Passw0rd''\<rparr>
   \<and> getUserData registered_device = Some john
   \<and> logout registered_device = (False, registered_device)
   \<and> hasSession (snd (logout registered_device))
   \<and> checkAuth (snd (logout registered_device))
        = \<lparr>isAuthenticated = True, AuthCheck.user = Some john\<rparr>"
proof -
  have c: "getCredentials registered_device
             = Some \<lparr>Credentials.email = ''a@b.com'', password = ''Passw0rd''\<rparr>"
    by (simp add: getCredentials_def registered_device_def fresh_install_def)
  have u: "getUserData registered_device = Some john"
    by (simp add: getUserData_def registered_device_def fresh_install_def)
  from logout_keeps_session [OF c u] c u show ?thesis
    by blast
qed

text \<open>
  C3. The claim: a login with the stored email and password, on an account that is not
  locked out, resets the failed-attempt counter, marks the session active and succeeds
  with the stored profile (or fails with the profile-missing error). The code resets the
  counter and then calls \<^verbatim>\<open>StorageService.setSessionActive\<close>, which does not exist: the
  login returns the unexpected-error result, whether a profile is stored or not.
\<close>

theorem login_matching_unexpected_error:
  assumes "\<not> fst (isLockedOut w)"
    and "getCredentials (snd (isLockedOut w)) = Some c"
    and "Credentials.email c = LoginFormData.email data"
    and "Credentials.password c = LoginFormData.password data"
  shows "login data w =
           (\<lparr>success = False, AuthResult.user = None,
             error = Some ''An unexpected error occurred during login'',
             lockedOut = None, remainingTime = None\<rparr>,
            snd (resetFailedAttempts (snd (isLockedOut w))))
         \<and> (fst (resetFailedAttempts (snd (isLockedOut w))) \<longrightarrow>
              getFailedAttempts (snd (login data w)) = 0)"
proof -
  obtain w1 where l: "isLockedOut w = (False, w1)"
    using assms(1) by (cases "isLockedOut w") simp
  have s: "login data w =
             (failure ''An unexpected error occurred during login'',
              snd (resetFailedAttempts w1))"
    using assms(2,3,4) by (simp add: login_def l setSessionActive_def Let_def)
  have "fst (resetFailedAttempts w1) \<Longrightarrow> getFailedAttempts (snd (resetFailedAttempts w1)) = 0"
    by (auto simp: resetFailedAttempts_def getFailedAttempts_def Let_def split: if_splits)
  then show ?thesis
    by (simp add: s l failure_def)
qed

theorem login_matching_unexpected_error_witness:
  "\<not> fst (isLockedOut (registered_device\<lparr>failed_login_attempts := Some 2\<rparr>))
   \<and> getCredentials (registered_device\<lparr>failed_login_attempts := Some 2\<rparr>)
       = Some \<lparr>Credentials.email = ''a@b.com'', password = ''Passw0rd''\<rparr>
   \<and> getUserData (registered_device\<lparr>failed_login_attempts := Some 2\<rparr>) = Some john
   \<and> login \<lparr>LoginFormData.email = ''a@b.com'', password = ''Passw0rd''\<rparr>
        (registered_device\<lparr>failed_login_attempts := Some 2\<rparr>) =
       (\<lparr>success = False, AuthResult.user = None,
         error = Some ''An unexpected error occurred during login'',
         lockedOut = None, remainingTime = None\<rparr>,
        registered_device\<lparr>failed_login_attempts := None\<rparr>)"
proof -
  let ?w = "registered_device\<lparr>failed_login_attempts := Some 2\<rparr>"
  let ?c = "\<lparr>Credentials.email = ''a@b.com'', password = ''Passw0rd''\<rparr>"
  let ?d = "\<lparr>LoginFormData.email = ''a@b.com'', password = ''Passw0rd''\<rparr>"
  have i: "isLockedOut ?w = (False, ?w)"
    by (simp add: isLockedOut_def registered_device_def fresh_install_def)
  have a: "\<not> fst (isLockedOut ?w)"
    by (simp add: i)
  have b: "getCredentials (snd (isLockedOut ?w)) = Some ?c"
    unfolding i by (simp add: getCredentials_def registered_device_def fresh_install_def)
  have c: "Credentials.email ?c = LoginFormData.email ?d"
    and d: "Credentials.password ?c = LoginFormData.password ?d"
    by simp_all
  have r: "snd (resetFailedAttempts ?w) = registered_device\<lparr>failed_login_attempts := None\<rparr>"
    by (simp add: resetFailedAttempts_def registered_device_def fresh_install_def)
  have u: "getUserData ?w = Some john"
    by (simp add: getUserData_def registered_device_def fresh_install_def)
  show ?thesis
    using login_matching_unexpected_error [OF a b c d] a b u
    by (simp add: i r)
qed

text \<open>
  C4, as the code has it. \<open>storePartialRegistration\<close> serialises the object it is given,
  whole: a draft that carries a password is stored with it, and read back with it.
\<close>

theorem stored_draft_keeps_password:
  "getPartialRegistration (snd (storePartialRegistration draft_with_password (fresh_install 0)))
     = Some draft_with_password
   \<and> draft_with_password ''password'' = Some ''Passw0rd''
   \<and> draft_with_password ''confirmPassword'' = Some ''Passw0rd''
   \<and> getPartialRegistration (snd (storePartialRegistration draft_with_password (fresh_install 0)))
       \<noteq> Some (draft_with_password |` (- {''password'', ''confirmPassword''}))"
proof -
  have g: "getPartialRegistration
             (snd (storePartialRegistration draft_with_password (fresh_install 0)))
           = Some draft_with_password"
    by (simp add: getPartialRegistration_def storePartialRegistration_def fresh_install_def)
  have p: "draft_with_password ''password'' = Some ''Passw0rd''"
    by (simp add: draft_with_password_def object_def)
  have c: "draft_with_password ''confirmPassword'' = Some ''Passw0rd''"
    by (simp add: draft_with_password_def object_def)
  have "(draft_with_password |` (- {''password'', ''confirmPassword''})) ''password'' = None"
    by simp
  with p have "draft_with_password
                 \<noteq> draft_with_password |` (- {''password'', ''confirmPassword''})"
    by (metis option.distinct(1))
  with g p c show ?thesis by simp
qed

text \<open>
  C4, amended. When AsyncStorage accepts the write and the read,
  \<open>storePartialRegistration d\<close> followed by \<open>getPartialRegistration\<close> returns \<open>d\<close>
  itself, with every property \<open>d\<close> has. The password is kept out of the draft by the
  registration screen: its \<^verbatim>\<open>watch\<close> subscription stores the form values restricted to
  email, first name, last name and phone number, so the draft it persists has neither a
  \<open>password\<close> nor a \<open>confirmPassword\<close> property.
\<close>

theorem partial_registration_round_trip:
  assumes "\<not> rejects w (AsyncStorage_setItem PARTIAL_REGISTRATION)"
    and "\<not> rejects w (AsyncStorage_getItem PARTIAL_REGISTRATION)"
  shows "getPartialRegistration (snd (storePartialRegistration d w)) = Some d
         \<and> getPartialRegistration (snd (watch_subscription d w))
             = Some (d |` {''email'', ''firstName'', ''lastName'', ''phoneNumber''})
         \<and> (d |` {''email'', ''firstName'', ''lastName'', ''phoneNumber''}) ''password'' = None
         \<and> (d |` {''email'', ''firstName'', ''lastName'', ''phoneNumber''}) ''confirmPassword''
             = None"
proof -
  have o: "object [(''email'', d ''email''), (''firstName'', d ''firstName''),
                   (''lastName'', d ''lastName''), (''phoneNumber'', d ''phoneNumber'')]
           = d |` {''email'', ''firstName'', ''lastName'', ''phoneNumber''}"
    by (rule ext) (simp add: object_def restrict_map_def)
  show ?thesis
    using assms
    by (simp add: getPartialRegistration_def storePartialRegistration_def
        watch_subscription_def o)
qed

theorem partial_registration_round_trip_witness:
  "\<not> rejects (fresh_install 0) (AsyncStorage_setItem PARTIAL_REGISTRATION)
   \<and> \<not> rejects (fresh_install 0) (AsyncStorage_getItem PARTIAL_REGISTRATION)
   \<and> getPartialRegistration (snd (storePartialRegistration draft_with_password (fresh_install 0)))
       = Some draft_with_password
   \<and> the (getPartialRegistration (snd (watch_subscription draft_with_password (fresh_install 0))))
       ''email'' = Some ''a@b.com''
   \<and> the (getPartialRegistration (snd (watch_subscription draft_with_password (fresh_install 0))))
       ''password'' = None"
proof -
  have a: "\<not> rejects (fresh_install 0) (AsyncStorage_setItem PARTIAL_REGISTRATION)"
    and b: "\<not> rejects (fresh_install 0) (AsyncStorage_getItem PARTIAL_REGISTRATION)"
    by (simp_all add: fresh_install_def)
  have e: "draft_with_password ''email'' = Some ''a@b.com''"
    by (simp add: draft_with_password_def object_def)
  show ?thesis
    using partial_registration_round_trip [OF a b, of draft_with_password] a b
    by (simp add: e)
qed

text \<open>
  C5, as the code has it. \<open>register\<close> compares the submitted email with the stored one
  and nothing else: with John's credential stored, registering Jane gets past the check
  and \<open>storeCredentials\<close> replaces John's credential by hers.
\<close>

theorem register_other_email_overwrites:
  "getCredentials registered_device
     = Some \<lparr>Credentials.email = ''a@b.com'', password = ''Passw0rd''\<rparr>
   \<and> keychain (snd (register jane_registration registered_device))
       = Some (''c@d.com'', ''Secret123'')
   \<and> keychain (snd (register jane_registration registered_device)) \<noteq> keychain registered_device
   \<and> error (fst (register jane_registration registered_device))
        \<noteq> Some ''An account with this email already exists''"
  by (simp add: register_def setSessionActive_def storeCredentials_def storeUserData_def
      getCredentials_def registered_device_def fresh_install_def jane_registration_def
      failure_def Let_def)

text \<open>
  C5, amended. In every state in which the stored credential has the submitted email,
  \<open>register\<close> fails with the already-exists error, whatever password is submitted, and
  leaves the credential slot, and the rest of the store, unchanged.
\<close>

theorem register_existing_email:
  assumes "getCredentials w = Some c"
    and "Credentials.email c = RegistrationFormData.email data"
  shows "register data w =
           (\<lparr>success = False, AuthResult.user = None,
             error = Some ''An account with this email already exists'',
             lockedOut = None, remainingTime = None\<rparr>, w)
         \<and> keychain (snd (register data w)) = keychain w"
  using assms by (simp add: register_def failure_def Let_def)

theorem register_existing_email_witness:
  "getCredentials registered_device
     = Some \<lparr>Credentials.email = ''a@b.com'', password = ''Passw0rd''\<rparr>
   \<and> register (john_registration\<lparr>RegistrationFormData.password := ''Different1''\<rparr>)
       registered_device =
           (\<lparr>success = False, AuthResult.user = None,
             error = Some ''An account with this email already exists'',
             lockedOut = None, remainingTime = None\<rparr>, registered_device)"
proof -
  have g: "getCredentials registered_device
             = Some \<lparr>Credentials.email = ''a@b.com'', password = ''Passw0rd''\<rparr>"
    by (simp add: getCredentials_def registered_device_def fresh_install_def)
  show ?thesis
    using register_existing_email
      [OF g, of "john_registration\<lparr>RegistrationFormData.password := ''Different1''\<rparr>"] g
    by (simp add: john_registration_def)
qed

text \<open>
  C6. A login attempted while \<open>isLockedOut\<close> answers true fails with the locked-out
  result, whatever email and password are submitted (so also with the right password):
  \<open>lockedOut\<close> is set, \<open>remainingTime\<close> carries the seconds that
  \<open>getRemainingLockoutTime\<close> reports, the message names
  \<open>\<lceil>seconds / 60\<rceil>\<close> minutes, and the store is left as it was, so the
  failed-attempt counter is unchanged.
\<close>

theorem login_while_locked_out:
  assumes "fst (isLockedOut w)"
  shows "login data w =
           (\<lparr>success = False, AuthResult.user = None,
             error = Some (''Account locked. Please try again in ''
                            @ Number_toString \<lceil>real_of_int (getRemainingLockoutTime w) / 60\<rceil>
                            @ '' minutes.''),
             lockedOut = Some True,
             remainingTime = Some (getRemainingLockoutTime w)\<rparr>, w)
         \<and> failed_login_attempts (snd (login data w)) = failed_login_attempts w
         \<and> getFailedAttempts (snd (login data w)) = getFailedAttempts w"
proof -
  have "isLockedOut w = (True, w)"
    using assms isLockedOut_state [OF assms] by (cases "isLockedOut w") simp
  then have "login data w =
      (locked (getRemainingLockoutTime w)
         (''Account locked. Please try again in ''
            @ Number_toString (Math_ceil_div (getRemainingLockoutTime w) 60) @ '' minutes.''), w)"
    by (simp add: login_def Let_def)
  then show ?thesis
    by (simp add: locked_def Math_ceil_div_ceiling)
qed

theorem login_while_locked_out_witness:
  "fst (isLockedOut locked_device) \<and>
   login \<lparr>LoginFormData.email = ''a@b.com'', password = ''Passw0rd''\<rparr> locked_device =
     (\<lparr>success = False, AuthResult.user = None,
       error = Some ''Account locked. Please try again in 14 minutes.'',
       lockedOut = Some True, remainingTime = Some 840\<rparr>, locked_device)"
proof -
  have l: "fst (isLockedOut locked_device)"
    by (simp add: locked_device_def fresh_install_def isLockedOut_def LOCKOUT_DURATION_def)
  have r: "getRemainingLockoutTime locked_device = 840"
    by (simp add: locked_device_def fresh_install_def getRemainingLockoutTime_def
        LOCKOUT_DURATION_def Math_ceil_div_def)
  have n: "Number_toString 14 = ''14''"
    by (simp add: Number_toString_def decimal.simps)
  show ?thesis
    using login_while_locked_out
      [OF l, of "\<lparr>LoginFormData.email = ''a@b.com'', password = ''Passw0rd''\<rparr>"] l
    by (simp add: r n)
qed

text \<open>
  C7. On a device whose backend calls go through (the rejected read is C10's case):
  \<open>isLockedOut\<close> answers false when no lockout timestamp is stored; when one is stored it
  answers true exactly when less than 15 minutes have passed since it, and otherwise it
  runs \<open>resetFailedAttempts\<close>, which clears the counter and the timestamp, and answers
  false. Starting with no failed attempts and no lockout, after fewer than five failed
  logins in a row \<open>isLockedOut\<close> is false; after five it is true for as long as less
  than 15 minutes have passed since the fifth, whatever further logins are attempted in
  that time, and false once the 15 minutes are over.
\<close>

theorem isLockedOut_window:
  assumes "\<forall>c. \<not> rejects w c"
  shows "isLockedOut w =
           (case lockout_timestamp w of
              None \<Rightarrow> (False, w)
            | Some t \<Rightarrow>
                if Date_now w - t < 15 * 60 * 1000 then (True, w)
                else (False, snd (resetFailedAttempts w)))
         \<and> snd (resetFailedAttempts w)
             = w\<lparr>failed_login_attempts := None, lockout_timestamp := None\<rparr>
         \<and> (getFailedAttempts w = 0 \<and> lockout_timestamp w = None
              \<and> (\<forall>a\<in>set attempts. mismatched w (snd a)) \<longrightarrow>
             (length attempts < 5 \<longrightarrow>
                \<not> fst (isLockedOut (advance ms (login_attempts attempts w))))
             \<and> (length attempts = 5 \<and> (\<forall>a\<in>set later. 0 \<le> fst a)
                  \<and> sum_list (map fst later) < 15 * 60 * 1000 \<longrightarrow>
                fst (isLockedOut (advance ms (login_attempts (attempts @ later) w)))
                  = (sum_list (map fst later) + ms < 15 * 60 * 1000)))"
proof -
  have a: "isLockedOut w =
           (case lockout_timestamp w of
              None \<Rightarrow> (False, w)
            | Some t \<Rightarrow>
                if Date_now w - t < 15 * 60 * 1000 then (True, w)
                else (False, snd (resetFailedAttempts w)))"
    using assms by (simp add: isLockedOut_def LOCKOUT_DURATION_def Let_def split: option.splits)
  have b: "snd (resetFailedAttempts w)
             = w\<lparr>failed_login_attempts := None, lockout_timestamp := None\<rparr>"
    using assms by (simp add: resetFailedAttempts_def Let_def)
  have c: "\<not> fst (isLockedOut (advance ms (login_attempts attempts w)))"
    if "getFailedAttempts w = 0" "lockout_timestamp w = None"
      "\<forall>a\<in>set attempts. mismatched w (snd a)" "length attempts < 5"
  proof -
    have "lockout_timestamp (login_attempts attempts w) = None"
      using login_attempts_below_threshold [OF assms that(2) that(3)] that(1,4) by simp
    then show ?thesis by (simp add: isLockedOut_def advance_def)
  qed
  have d: "fst (isLockedOut (advance ms (login_attempts (attempts @ later) w)))
             = (sum_list (map fst later) + ms < 15 * 60 * 1000)"
    if "getFailedAttempts w = 0" "lockout_timestamp w = None"
      "\<forall>a\<in>set attempts. mismatched w (snd a)" "length attempts = 5"
      "\<forall>a\<in>set later. 0 \<le> fst a" "sum_list (map fst later) < 15 * 60 * 1000"
    using locked_after_five_and_more
      [OF assms that(2) that(1) that(3) that(4) that(5) that(6)] .
  show ?thesis
    using a b c d by blast
qed

theorem isLockedOut_window_witness:
  "(\<forall>c. \<not> rejects registered_device c)
   \<and> getFailedAttempts registered_device = 0
   \<and> lockout_timestamp registered_device = None
   \<and> list_all (\<lambda>a. mismatched registered_device (snd a)) five_wrong_passwords
   \<and> length five_wrong_passwords = 5
   \<and> list_all (\<lambda>a. 0 \<le> fst a) right_password_later
   \<and> sum_list (map fst right_password_later) < 15 * 60 * 1000
   \<and> fst (isLockedOut (advance 899999 (login_attempts five_wrong_passwords registered_device)))
   \<and> \<not> fst (isLockedOut (advance 900000 (login_attempts five_wrong_passwords registered_device)))
   \<and> fst (isLockedOut (advance 839999
            (login_attempts (five_wrong_passwords @ right_password_later) registered_device)))
   \<and> \<not> fst (isLockedOut (advance 840000
            (login_attempts (five_wrong_passwords @ right_password_later) registered_device)))
   \<and> \<not> fst (isLockedOut (login_attempts (take 4 five_wrong_passwords) registered_device))
   \<and> isLockedOut registered_device = (False, registered_device)
   \<and> (\<forall>c. \<not> rejects locked_device c)
   \<and> isLockedOut locked_device = (True, locked_device)
   \<and> isLockedOut (advance 840000 locked_device)
       = (False, (advance 840000 locked_device)
                   \<lparr>failed_login_attempts := None, lockout_timestamp := None\<rparr>)"
proof -
  have r: "\<forall>c. \<not> rejects registered_device c"
    and f: "getFailedAttempts registered_device = 0"
    and l: "lockout_timestamp registered_device = None"
    by (simp_all add: registered_device_def fresh_install_def getFailedAttempts_def)
  have m: "\<forall>a\<in>set five_wrong_passwords. mismatched registered_device (snd a)"
    and m4: "\<forall>a\<in>set (take 4 five_wrong_passwords). mismatched registered_device (snd a)"
    by (simp_all add: five_wrong_passwords_def mismatched_def getCredentials_def
        registered_device_def fresh_install_def)
  have n: "length five_wrong_passwords = 5" "length (take 4 five_wrong_passwords) < 5"
    by (simp_all add: five_wrong_passwords_def)
  have p: "\<forall>a\<in>set right_password_later. 0 \<le> fst a"
    "sum_list (map fst right_password_later) = 60000"
    and e: "\<forall>a\<in>set []. 0 \<le> fst (a :: int \<times> LoginFormData)"
    by (simp_all add: right_password_later_def)
  have a: "fst (isLockedOut
                  (advance 899999 (login_attempts five_wrong_passwords registered_device)))"
    using isLockedOut_window [OF r, of five_wrong_passwords 899999 "[]"] f l m n by simp
  have b: "\<not> fst (isLockedOut
                    (advance 900000 (login_attempts five_wrong_passwords registered_device)))"
    using isLockedOut_window [OF r, of five_wrong_passwords 900000 "[]"] f l m n by simp
  have a': "fst (isLockedOut (advance 839999
              (login_attempts (five_wrong_passwords @ right_password_later) registered_device)))"
    using isLockedOut_window [OF r, of five_wrong_passwords 839999 right_password_later]
      f l m n p by simp
  have b': "\<not> fst (isLockedOut (advance 840000
              (login_attempts (five_wrong_passwords @ right_password_later) registered_device)))"
    using isLockedOut_window [OF r, of five_wrong_passwords 840000 right_password_later]
      f l m n p by simp
  have c: "\<not> fst (isLockedOut (login_attempts (take 4 five_wrong_passwords) registered_device))"
    using isLockedOut_window [OF r, of "take 4 five_wrong_passwords" 0 "[]"] f l m4 n
    by (simp add: advance_def)
  have d: "isLockedOut registered_device = (False, registered_device)"
    using isLockedOut_window [OF r, of "[]" 0 "[]"] l by simp
  have r': "\<forall>c. \<not> rejects locked_device c"
    by (simp add: locked_device_def fresh_install_def)
  have e': "isLockedOut locked_device = (True, locked_device)"
    using isLockedOut_window [OF r', of "[]" 0 "[]"]
    by (simp add: locked_device_def fresh_install_def)
  have r'': "\<forall>c. \<not> rejects (advance 840000 locked_device) c"
    by (simp add: locked_device_def fresh_install_def advance_def)
  have g: "isLockedOut (advance 840000 locked_device)
       = (False, (advance 840000 locked_device)
                   \<lparr>failed_login_attempts := None, lockout_timestamp := None\<rparr>)"
    using isLockedOut_window [OF r'', of "[]" 0 "[]"]
    by (simp add: locked_device_def fresh_install_def advance_def)
  show ?thesis
    using r f l m n p a b a' b' c d r' e' g by (simp add: list_all_iff)
qed

text \<open>
  C8. When the submitted email is not the stored credential's, the credential is stored
  and storing the profile then fails, \<open>register\<close> calls \<open>clearCredentials\<close> on the
  credential it has just stored and fails with the profile-store error. That is all it
  does: the final store is the one \<open>clearCredentials\<close> leaves, with an empty credential
  slot once the keychain has carried the reset out, so no session exists; the draft, the
  stored profile and the lockout state are what they were.
\<close>

theorem register_rolls_back_credential:
  assumes "map_option Credentials.email (getCredentials w)
             \<noteq> Some (RegistrationFormData.email data)"
    and "storeCredentials (RegistrationFormData.email data)
           (RegistrationFormData.password data) w = (True, w1)"
    and "\<not> fst (storeUserData
                 \<lparr>User.email = RegistrationFormData.email data,
                  firstName = RegistrationFormData.firstName data,
                  lastName = RegistrationFormData.lastName data,
                  phoneNumber = RegistrationFormData.phoneNumber data\<rparr> w1)"
  shows "register data w =
           (\<lparr>success = False, AuthResult.user = None,
             error = Some ''Failed to store user data'',
             lockedOut = None, remainingTime = None\<rparr>, snd (clearCredentials w1))
         \<and> (fst (clearCredentials w1) \<longrightarrow>
               keychain (snd (register data w)) = None
               \<and> getCredentials (snd (register data w)) = None
               \<and> \<not> hasSession (snd (register data w)))
         \<and> partial_registration (snd (register data w)) = partial_registration w
         \<and> user_data (snd (register data w)) = user_data w
         \<and> failed_login_attempts (snd (register data w)) = failed_login_attempts w
         \<and> lockout_timestamp (snd (register data w)) = lockout_timestamp w"
proof -
  have r: "register data w = (failure ''Failed to store user data'', snd (clearCredentials w1))"
    using assms
    by (auto simp: register_def Let_def storeUserData_def split: prod.splits if_splits)
  have w1: "w1 = w\<lparr>keychain := Some (RegistrationFormData.email data,
                                       RegistrationFormData.password data)\<rparr>"
    using assms(2) by (auto simp: storeCredentials_def split: if_splits)
  show ?thesis
    unfolding r
    by (auto simp: w1 failure_def clearCredentials_def getCredentials_def hasSession_def Let_def)
qed

theorem register_rolls_back_credential_witness:
  "map_option Credentials.email (getCredentials profile_write_fails)
     \<noteq> Some (RegistrationFormData.email john_registration)
   \<and> storeCredentials ''a@b.com'' ''Passw0rd'' profile_write_fails
       = (True, profile_write_fails\<lparr>keychain := Some (''a@b.com'', ''Passw0rd'')\<rparr>)
   \<and> \<not> fst (storeUserData john
               (profile_write_fails\<lparr>keychain := Some (''a@b.com'', ''Passw0rd'')\<rparr>))
   \<and> fst (clearCredentials (profile_write_fails\<lparr>keychain := Some (''a@b.com'', ''Passw0rd'')\<rparr>))
   \<and> register john_registration profile_write_fails =
           (\<lparr>success = False, AuthResult.user = None,
             error = Some ''Failed to store user data'',
             lockedOut = None, remainingTime = None\<rparr>, profile_write_fails)
   \<and> keychain (snd (register john_registration profile_write_fails)) = None
   \<and> partial_registration (snd (register john_registration profile_write_fails))
       = Some john_draft"
proof -
  let ?w1 = "profile_write_fails\<lparr>keychain := Some (''a@b.com'', ''Passw0rd'')\<rparr>"
  have a: "map_option Credentials.email (getCredentials profile_write_fails)
             \<noteq> Some (RegistrationFormData.email john_registration)"
    by (simp add: getCredentials_def profile_write_fails_def device_with_draft_def
        fresh_install_def)
  have b: "storeCredentials (RegistrationFormData.email john_registration)
             (RegistrationFormData.password john_registration) profile_write_fails = (True, ?w1)"
    by (simp add: storeCredentials_def profile_write_fails_def device_with_draft_def
        fresh_install_def john_registration_def)
  have c: "\<not> fst (storeUserData
                 \<lparr>User.email = RegistrationFormData.email john_registration,
                  firstName = RegistrationFormData.firstName john_registration,
                  lastName = RegistrationFormData.lastName john_registration,
                  phoneNumber = RegistrationFormData.phoneNumber john_registration\<rparr> ?w1)"
    by (simp add: storeUserData_def profile_write_fails_def device_with_draft_def
        fresh_install_def)
  have d: "clearCredentials ?w1 = (True, profile_write_fails)"
    by (simp add: clearCredentials_def profile_write_fails_def device_with_draft_def
        fresh_install_def)
  have e: "\<not> fst (storeUserData john ?w1)"
    by (simp add: storeUserData_def profile_write_fails_def device_with_draft_def
        fresh_install_def)
  have f: "partial_registration profile_write_fails = Some john_draft"
    and k: "keychain profile_write_fails = None"
    by (simp_all add: profile_write_fails_def device_with_draft_def fresh_install_def)
  show ?thesis
    using register_rolls_back_credential [OF a b c] a b e
    by (simp add: d f k john_registration_def)
qed

text \<open>
  C9. \<open>getRemainingLockoutTime\<close> is 0 when no lockout timestamp is stored and when 15
  minutes or more have passed since it; otherwise it is the ceiling of (15 minutes minus
  the elapsed time) over 1000, in seconds. The value never grows as time advances, and it
  is 0 exactly when \<open>isLockedOut\<close> answers false. (The first line of the right-hand
  side is the rejected read, which returns 0 as well.)
\<close>

theorem getRemainingLockoutTime_ceiling:
  "getRemainingLockoutTime w =
     (if rejects w (AsyncStorage_getItem LOCKOUT_TIMESTAMP) then 0
      else case lockout_timestamp w of
             None \<Rightarrow> 0
           | Some t \<Rightarrow>
               if Date_now w - t \<ge> 15 * 60 * 1000 then 0
               else \<lceil>(15 * 60 * 1000 - real_of_int (Date_now w - t)) / 1000\<rceil>)
   \<and> (\<forall>ms\<ge>0. getRemainingLockoutTime (advance ms w) \<le> getRemainingLockoutTime w)
   \<and> ((getRemainingLockoutTime w = 0) = (\<not> fst (isLockedOut w)))"
proof -
  have "getRemainingLockoutTime w =
     (if rejects w (AsyncStorage_getItem LOCKOUT_TIMESTAMP) then 0
      else case lockout_timestamp w of
             None \<Rightarrow> 0
           | Some t \<Rightarrow>
               if Date_now w - t \<ge> 15 * 60 * 1000 then 0
               else \<lceil>(15 * 60 * 1000 - real_of_int (Date_now w - t)) / 1000\<rceil>)"
    by (simp add: getRemainingLockoutTime_def LOCKOUT_DURATION_def Let_def Math_ceil_div_ceiling
        split: option.splits)
  then show ?thesis
    using getRemainingLockoutTime_advance getRemainingLockoutTime_zero_iff by blast
qed

theorem getRemainingLockoutTime_ceiling_witness:
  "getRemainingLockoutTime locked_device = 840
   \<and> (0::int) \<le> 1500
   \<and> getRemainingLockoutTime (advance 1500 locked_device) \<le> getRemainingLockoutTime locked_device
   \<and> getRemainingLockoutTime (advance 840000 locked_device) = 0
   \<and> \<not> fst (isLockedOut (advance 840000 locked_device))"
proof -
  note t = getRemainingLockoutTime_ceiling [of locked_device]
  have a: "getRemainingLockoutTime locked_device = 840"
    using t [THEN conjunct1] by (simp add: locked_device_def fresh_install_def)
  have b: "getRemainingLockoutTime (advance 1500 locked_device)
             \<le> getRemainingLockoutTime locked_device"
    using t [THEN conjunct2, THEN conjunct1] by simp
  have c: "getRemainingLockoutTime (advance 840000 locked_device) = 0"
    using getRemainingLockoutTime_ceiling [of "advance 840000 locked_device", THEN conjunct1]
    by (simp add: locked_device_def fresh_install_def advance_def)
  have d: "\<not> fst (isLockedOut (advance 840000 locked_device))"
    using getRemainingLockoutTime_ceiling
      [of "advance 840000 locked_device", THEN conjunct2, THEN conjunct2] c
    by simp
  show ?thesis using a b c d by simp
qed

text \<open>
  C10, as the code has it. Neither \<open>isLockedOut\<close> nor \<open>getRemainingLockoutTime\<close> reads
  the failed-attempt count. When only that read is rejected, on a device locked a minute
  ago, \<open>isLockedOut\<close> is true, 840 seconds remain, and a login with the right password
  is turned away as locked out.
\<close>

theorem count_read_failure_still_locked:
  "rejects count_read_fails (AsyncStorage_getItem FAILED_LOGIN_ATTEMPTS)
   \<and> fst (isLockedOut count_read_fails)
   \<and> getRemainingLockoutTime count_read_fails = 840
   \<and> lockedOut (fst (login \<lparr>LoginFormData.email = ''a@b.com'', password = ''Passw0rd''\<rparr>
                        count_read_fails)) = Some True"
  by (simp add: count_read_fails_def locked_device_def fresh_install_def isLockedOut_def
      getRemainingLockoutTime_def LOCKOUT_DURATION_def Math_ceil_div_def login_def locked_def
      Let_def)

text \<open>
  C10, amended. If the backend read of the lockout timestamp is rejected,
  \<open>isLockedOut\<close> answers false without touching the store and
  \<open>getRemainingLockoutTime\<close> answers 0, whatever counter and timestamp are stored; a
  login made in that state is never turned away as locked out.
\<close>

theorem lockout_check_fails_open:
  assumes "rejects w (AsyncStorage_getItem LOCKOUT_TIMESTAMP)"
  shows "isLockedOut w = (False, w)
         \<and> getRemainingLockoutTime w = 0
         \<and> lockedOut (fst (login data w)) = None"
proof -
  have l: "isLockedOut w' = (False, w')" if "rejects w' = rejects w" for w'
    using assms that by (simp add: isLockedOut_def)
  have i: "isLockedOut (snd (incrementFailedAttempts w)) = (False, snd (incrementFailedAttempts w))"
    by (rule l) (rule incrementFailedAttempts_rejects)
  have "lockedOut (fst (login data w)) = None"
    using l [of w] i
    by (simp add: login_def case_prod_unfold setSessionActive_def failure_def Let_def
        split: option.splits)
  then show ?thesis
    using assms l [of w] by (simp add: getRemainingLockoutTime_def)
qed

theorem lockout_check_fails_open_witness:
  "rejects timestamp_read_fails (AsyncStorage_getItem LOCKOUT_TIMESTAMP)
   \<and> failed_login_attempts timestamp_read_fails = Some 5
   \<and> lockout_timestamp timestamp_read_fails = Some 0
   \<and> Date_now timestamp_read_fails = 60000
   \<and> isLockedOut timestamp_read_fails = (False, timestamp_read_fails)
   \<and> getRemainingLockoutTime timestamp_read_fails = 0
   \<and> lockedOut (fst (login \<lparr>LoginFormData.email = ''a@b.com'', password = ''wrong''\<rparr>
                        timestamp_read_fails)) = None"
proof -
  have r: "rejects timestamp_read_fails (AsyncStorage_getItem LOCKOUT_TIMESTAMP)"
    by (simp add: timestamp_read_fails_def)
  show ?thesis
    using lockout_check_fails_open
      [OF r, of "\<lparr>LoginFormData.email = ''a@b.com'', password = ''wrong''\<rparr>"] r
    by (simp add: timestamp_read_fails_def locked_device_def fresh_install_def)
qed

end
